theory Spec2Isabelle
  imports Main "HOL-Library.Multiset"
begin

section \<open>Python values used by the two modules\<close>

text \<open>
  The exceptions that the modelled code can raise. A function that may raise returns
  a sum, with \<open>Inl\<close> for the exception.
\<close>

datatype error = IndexError | KeyError | ValueError | NameError | UnboundLocalError
  | IOError | TypeError

subsection \<open>Strings\<close>

text \<open>
  Log lines and record keys are ASCII text. \<open>is_space\<close> is the set of ASCII characters
  that Python's \<open>str.split()\<close>, \<open>str.strip()\<close> and the pattern \<open>\s\<close> treat as white space.
\<close>

definition is_space :: "char \<Rightarrow> bool" where
  "is_space c = (c \<in> set [CHR 0x09, CHR 0x0A, CHR 0x0B, CHR 0x0C, CHR 0x0D,
                            CHR 0x1C, CHR 0x1D, CHR 0x1E, CHR 0x1F, CHR 0x20])"

definition upper_char :: "char \<Rightarrow> char" where
  "upper_char c =
     (case map_of (zip ''abcdefghijklmnopqrstuvwxyz'' ''ABCDEFGHIJKLMNOPQRSTUVWXYZ'') c of
        Some u \<Rightarrow> u
      | None \<Rightarrow> c)"

definition upper :: "string \<Rightarrow> string" where
  "upper s = map upper_char s"

definition strip :: "string \<Rightarrow> string" where
  "strip s = rev (dropWhile is_space (rev (dropWhile is_space s)))"

fun split_acc :: "string \<Rightarrow> string \<Rightarrow> string list" where
  "split_acc cur [] = (if cur = [] then [] else [cur])"
| "split_acc cur (c # cs) =
     (if is_space c then (if cur = [] then split_acc [] cs else cur # split_acc [] cs)
      else split_acc (cur @ [c]) cs)"

definition split :: "string \<Rightarrow> string list" where
  "split s = split_acc [] s"

subsection \<open>The multi-valued dictionary\<close>

text \<open>
  Modelled from the spec: the class \<open>process.MultiDict\<close> is not among the sources. The
  record store is "a mapping from record-key to an ordered sequence of parsed values
  (append-only)", a "dict-of-lists": assigning \<open>d[key] = value\<close> appends \<open>value\<close> to the
  sequence of \<open>key\<close>, creating the sequence when the key is new. Keys keep their order of
  insertion; reading \<open>d[key]\<close> of an unknown key raises KeyError.
\<close>

type_synonym MultiDict = "(string \<times> string list) list"

fun setitem :: "MultiDict \<Rightarrow> string \<Rightarrow> string \<Rightarrow> MultiDict" where
  "setitem [] k v = [(k, [v])]"
| "setitem ((k', vs) # d) k v =
     (if k' = k then (k', vs @ [v]) # d else (k', vs) # setitem d k v)"

definition getitem :: "MultiDict \<Rightarrow> string \<Rightarrow> error + string list" where
  "getitem d k = (case map_of d k of None \<Rightarrow> Inl KeyError | Some vs \<Rightarrow> Inr vs)"

section \<open>The energy-record parser of \<open>Process/amber.py\<close>\<close>

subsection \<open>The record pattern\<close>

text \<open>
  \<open>re.findall\<close> is applied to one pattern only,
  \<^verbatim>\<open>(\d*\-*\d*\s*[A-Z]+\(*[A-Z]*\)*)\s*=\s*(\-*\d+\.?\d*)\<close>,
  a sequence of quantified character classes. The matcher below is the backtracking
  matcher of such a sequence: every quantifier is greedy and gives characters back when
  the rest of the pattern fails. It returns the text taken by each item and the rest of
  the input.
\<close>

datatype cls = Digit | Dash | Space | Letter | LParen | RParen | Equals | Dot

datatype quant = One | Star | Plus | Opt

fun in_cls :: "cls \<Rightarrow> char \<Rightarrow> bool" where
  "in_cls Digit c = (c \<in> set ''0123456789'')"
| "in_cls Dash c = (c = CHR ''-'')"
| "in_cls Space c = is_space c"
| "in_cls Letter c = (c \<in> set ''ABCDEFGHIJKLMNOPQRSTUVWXYZ'')"
| "in_cls LParen c = (c = CHR ''('')"
| "in_cls RParen c = (c = CHR '')'')"
| "in_cls Equals c = (c = CHR ''='')"
| "in_cls Dot c = (c = CHR ''.'')"

definition skip_item :: "(string list \<times> string) option \<Rightarrow> (string list \<times> string) option" where
  "skip_item r = map_option (\<lambda>(gs, t). ([] # gs, t)) r"

definition take_char :: "char \<Rightarrow> (string list \<times> string) option \<Rightarrow> (string list \<times> string) option" where
  "take_char x r = map_option (\<lambda>(gs, t). ((x # hd gs) # tl gs, t)) r"

fun rmatch :: "(cls \<times> quant) list \<Rightarrow> string \<Rightarrow> (string list \<times> string) option" where
  "rmatch [] s = Some ([], s)"
| "rmatch ((c, One) # r) [] = None"
| "rmatch ((c, One) # r) (x # xs) =
     (if in_cls c x then map_option (\<lambda>(gs, t). ([x] # gs, t)) (rmatch r xs) else None)"
| "rmatch ((c, Plus) # r) [] = None"
| "rmatch ((c, Plus) # r) (x # xs) =
     (if in_cls c x then take_char x (rmatch ((c, Star) # r) xs) else None)"
| "rmatch ((c, Star) # r) [] = skip_item (rmatch r [])"
| "rmatch ((c, Star) # r) (x # xs) =
     (if in_cls c x then
        (case take_char x (rmatch ((c, Star) # r) xs) of
           Some m \<Rightarrow> Some m
         | None \<Rightarrow> skip_item (rmatch r (x # xs)))
      else skip_item (rmatch r (x # xs)))"
| "rmatch ((c, Opt) # r) [] = skip_item (rmatch r [])"
| "rmatch ((c, Opt) # r) (x # xs) =
     (if in_cls c x then
        (case rmatch r xs of
           Some (gs, t) \<Rightarrow> Some ([x] # gs, t)
         | None \<Rightarrow> skip_item (rmatch r (x # xs)))
      else skip_item (rmatch r (x # xs)))"

definition record_pattern :: "(cls \<times> quant) list" where
  "record_pattern =
     [(Digit, Star), (Dash, Star), (Digit, Star), (Space, Star), (Letter, Plus),
      (LParen, Star), (Letter, Star), (RParen, Star),
      (Space, Star), (Equals, One), (Space, Star),
      (Dash, Star), (Digit, Plus), (Dot, Opt), (Digit, Star)]"

text \<open>
  \<open>findall\<close> scans the line from left to right. At a position not covered by the previous
  match it tries the pattern; a match gives the pair of its two groups (items 1 to 8 and
  items 12 to 15) and the scan goes on behind it. The pattern needs a letter, an equals
  sign and a digit, so a match is never empty. The first argument counts the characters
  that the previous match still covers.
\<close>

fun scan :: "nat \<Rightarrow> string \<Rightarrow> (string \<times> string) list" where
  "scan n [] = []"
| "scan (Suc n) (x # xs) = scan n xs"
| "scan 0 (x # xs) =
     (case rmatch record_pattern (x # xs) of
        None \<Rightarrow> scan 0 xs
      | Some (gs, t) \<Rightarrow>
          (concat (take 8 gs), concat (drop 11 gs)) # scan (length xs - length t) xs)"

definition findall :: "string \<Rightarrow> (string \<times> string) list" where
  "findall s = scan 0 s"

subsection \<open>\<open>Amber._update_energy_dict\<close>\<close>

text \<open>
  \<open>ProtocolType\<close> is imported from \<open>Protocol/protocol.py\<close>; the module uses these three
  members of it.
\<close>

datatype ProtocolType = MINIMISATION | EQUILIBRATION | PRODUCTION

text \<open>
  How a piece of the loop ends: it falls through to what follows (\<open>Next\<close>), executes
  \<open>return\<close> (\<open>Return\<close>) or raises (\<open>Raise\<close>). The dictionary is mutated in place, so
  every outcome carries the dictionary as it is at that moment.
\<close>

datatype 'a flow = Next 'a | Return MultiDict | Raise error MultiDict

text \<open>
  The test \<open>'NSTEP' in self._stdout_dict and v == self._stdout_dict['NSTEP'][-1]\<close>:
  \<open>Inr True\<close> when the file has not been updated. Indexing an empty list with \<open>-1\<close>
  raises IndexError.
\<close>

definition not_updated :: "MultiDict \<Rightarrow> string \<Rightarrow> error + bool" where
  "not_updated d v =
     (case map_of d ''NSTEP'' of
        None \<Rightarrow> Inr False
      | Some vs \<Rightarrow> (if vs = [] then Inl IndexError else Inr (v = last vs)))"

text \<open>The loop \<open>for key, value in records\<close> (lines 766 to 778).\<close>

fun records_loop :: "MultiDict \<Rightarrow> (string \<times> string) list \<Rightarrow> MultiDict flow" where
  "records_loop d [] = Next d"
| "records_loop d ((key, val) # rs) =
     (let k = strip key in
      if k = ''NSTEP'' then
        (case not_updated d val of
           Inl e \<Rightarrow> Raise e d
         | Inr True \<Rightarrow> Return d
         | Inr False \<Rightarrow> records_loop (setitem d k val) rs)
      else records_loop (setitem d k val) rs)"

text \<open>
  The test for a header line of the minimisation dialect (lines 731 to 740): no equals
  sign, and the first token is \<open>NSTEP\<close>.
\<close>

definition is_header_line :: "string \<Rightarrow> bool" where
  "is_header_line line =
     (CHR ''='' \<notin> set line \<and>
      (let data = split (upper line) in length data > 0 \<and> hd data = ''NSTEP''))"

text \<open>
  The body of \<open>if is_header\<close> (lines 746 to 758). \<open>data[0]\<close> and \<open>data[1]\<close> raise
  IndexError when the line has too few tokens; \<open>data[1]\<close> is read after the step count
  has been stored.
\<close>

definition store_header :: "MultiDict \<Rightarrow> string list \<Rightarrow> (bool \<times> MultiDict) flow" where
  "store_header d data =
     (case data of
        [] \<Rightarrow> Raise IndexError d
      | [x] \<Rightarrow> Raise IndexError (setitem d ''NSTEP'' x)
      | x # y # _ \<Rightarrow> Next (False, setitem (setitem d ''NSTEP'' x) ''ENERGY'' y))"

definition header_record :: "MultiDict \<Rightarrow> string \<Rightarrow> (bool \<times> MultiDict) flow" where
  "header_record d line =
     (let data = split (upper line) in
      if map_of d ''NSTEP'' \<noteq> None then
        (case data of
           [] \<Rightarrow> Raise IndexError d
         | x # _ \<Rightarrow>
             (case not_updated d x of
                Inl e \<Rightarrow> Raise e d
              | Inr True \<Rightarrow> Return d
              | Inr False \<Rightarrow> store_header d data))
      else store_header d data)"

text \<open>The pattern search and the loop over its records (lines 763 to 778).\<close>

definition records_block :: "bool \<Rightarrow> MultiDict \<Rightarrow> string \<Rightarrow> (bool \<times> MultiDict) flow" where
  "records_block h d line =
     (case records_loop d (findall (upper line)) of
        Next d' \<Rightarrow> Next (h, d')
      | Return d' \<Rightarrow> Return d'
      | Raise e d' \<Rightarrow> Raise e d')"

text \<open>
  The body of \<open>for line in f\<close> for one line, from the header flag and the dictionary
  before it. A one-character string is a shared object in CPython, so the identity test
  \<open>line[0] is not '|'\<close> is the comparison of the characters.
\<close>

definition process_line :: "ProtocolType \<Rightarrow> bool \<times> MultiDict \<Rightarrow> string \<Rightarrow> (bool \<times> MultiDict) flow" where
  "process_line proto st line =
     (case st of (h, d) \<Rightarrow>
      if length line > 0 \<and> hd line \<noteq> CHR ''|'' then
        if proto = MINIMISATION then
          if is_header_line line then Next (True, d)
          else if h then
            (case header_record d line of
               Next (h', d') \<Rightarrow> records_block h' d' line
             | Return d' \<Rightarrow> Return d'
             | Raise e d' \<Rightarrow> Raise e d')
          else records_block h d line
        else records_block h d line
      else Next (h, d))"

fun lines_loop :: "ProtocolType \<Rightarrow> bool \<times> MultiDict \<Rightarrow> string list \<Rightarrow> (bool \<times> MultiDict) flow" where
  "lines_loop proto st [] = Next st"
| "lines_loop proto st (line # ls) =
     (case process_line proto st line of
        Next st' \<Rightarrow> lines_loop proto st' ls
      | Return d \<Rightarrow> Return d
      | Raise e d \<Rightarrow> Raise e d)"

text \<open>
  \<open>_update_energy_dict\<close>: the protocol type, the lines of the energy file as they are when
  it is read, and the dictionary before the call; it gives the exception raised, if any,
  and the dictionary after the call.
\<close>

definition update_energy_dict :: "ProtocolType \<Rightarrow> string list \<Rightarrow> MultiDict \<Rightarrow> error option \<times> MultiDict" where
  "update_energy_dict proto nrg d =
     (case lines_loop proto (False, d) nrg of
        Next (h, d') \<Rightarrow> (None, d')
      | Return d' \<Rightarrow> (None, d')
      | Raise e d' \<Rightarrow> (Some e, d'))"

subsection \<open>\<open>Amber._get_stdout_record\<close> and the queries built on it\<close>

text \<open>
  \<open>_get_stdout_record\<close> tests its key with \<open>key is 'NSTEP'\<close>, the identity of two string
  objects, so a string is modelled as an object: its identity and its characters. A
  string literal of the module is one constant object for each distinct text (CPython
  interns these constants), \<open>Literal t\<close>. A string built while the program runs, such as
  the result of \<open>str.upper()\<close> on a text of two or more characters, is a new object,
  \<open>Runtime n\<close> for the \<open>n\<close>-th allocation.
\<close>

datatype objid = Literal string | Runtime nat

datatype strobj = StrObj (ident: objid) (chars: string)

definition literal :: "string \<Rightarrow> strobj" where
  "literal t = StrObj (Literal t) t"

definition py_is :: "strobj \<Rightarrow> strobj \<Rightarrow> bool" where
  "py_is a b = (ident a = ident b)"

text \<open>
  Python's \<open>int\<close> on an ASCII string, base ten. The white space dropped around the text
  is that of C's \<open>isspace\<close>: tab, line feed, vertical tab, form feed, carriage return
  and space, but not the separators \<open>0x1C\<close> to \<open>0x1F\<close>. One sign is allowed, and single
  underscores may separate digits. \<open>None\<close> is ValueError.
\<close>

definition is_c_space :: "char \<Rightarrow> bool" where
  "is_c_space c = (c \<in> set [CHR 0x09, CHR 0x0A, CHR 0x0B, CHR 0x0C, CHR 0x0D, CHR 0x20])"

definition digit_val :: "char \<Rightarrow> nat option" where
  "digit_val c = map_of (zip ''0123456789'' [0 ..< 10]) c"

fun parse_digits :: "nat \<Rightarrow> string \<Rightarrow> nat option" where
  "parse_digits acc [] = Some acc"
| "parse_digits acc [c] =
     (case digit_val c of Some v \<Rightarrow> Some (10 * acc + v) | None \<Rightarrow> None)"
| "parse_digits acc (c # c' # cs) =
     (if c = CHR ''_'' then
        (case digit_val c' of Some v \<Rightarrow> parse_digits (10 * acc + v) cs | None \<Rightarrow> None)
      else
        (case digit_val c of Some v \<Rightarrow> parse_digits (10 * acc + v) (c' # cs) | None \<Rightarrow> None))"

definition parse_nat :: "string \<Rightarrow> nat option" where
  "parse_nat s =
     (case s of
        [] \<Rightarrow> None
      | c # cs \<Rightarrow> (case digit_val c of Some v \<Rightarrow> parse_digits v cs | None \<Rightarrow> None))"

definition py_int :: "string \<Rightarrow> int option" where
  "py_int s =
     (case rev (dropWhile is_c_space (rev (dropWhile is_c_space s))) of
        [] \<Rightarrow> None
      | c # cs \<Rightarrow>
          (if c = CHR ''-'' then map_option (\<lambda>n. - int n) (parse_nat cs)
           else if c = CHR ''+'' then map_option int (parse_nat cs)
           else map_option int (parse_nat (c # cs))))"

text \<open>
  The values a query returns. Python's \<open>float\<close> on a string is a parameter \<open>float\<close> of the
  queries, with \<open>None\<close> for ValueError; \<open>'f\<close> is the type of floating-point numbers.
\<close>

datatype 'f pyval = PyNone | PyInt int | PyFloat 'f | PyList "'f pyval list"

text \<open>The \<open>time_series\<close> argument: a Python \<open>bool\<close>, or an object of another type.\<close>

datatype flag = PyBool bool | NonBool

definition convert_all :: "(string \<Rightarrow> 'a option) \<Rightarrow> ('a \<Rightarrow> 'f pyval) \<Rightarrow> string list \<Rightarrow> error + 'f pyval" where
  "convert_all conv tag vs =
     (case those (map conv vs) of
        None \<Rightarrow> Inl ValueError
      | Some xs \<Rightarrow> Inr (PyList (map tag xs)))"

definition convert_last :: "(string \<Rightarrow> 'a option) \<Rightarrow> ('a \<Rightarrow> 'f pyval) \<Rightarrow> string list \<Rightarrow> error + 'f pyval" where
  "convert_last conv tag vs =
     (if vs = [] then Inl IndexError
      else case conv (last vs) of None \<Rightarrow> Inl ValueError | Some x \<Rightarrow> Inr (tag x))"

text \<open>
  \<open>_get_stdout_record\<close> (lines 805 to 845). Only KeyError is caught, and reading the
  dictionary is all that raises it. The test
  \<open>len(self._stdout_dict) is 0\<close> is on a small integer, a shared object in CPython, and
  is the comparison of the numbers.
\<close>

definition get_stdout_record :: "(string \<Rightarrow> 'f option) \<Rightarrow> MultiDict \<Rightarrow> strobj \<Rightarrow> flag \<Rightarrow> error + 'f pyval" where
  "get_stdout_record float d key time_series =
     (if length d = 0 then Inr PyNone
      else
        let ts = (case time_series of PyBool b \<Rightarrow> b | NonBool \<Rightarrow> False) in
        if ts then
          (if py_is key (literal ''NSTEP'') then
             (case getitem d (chars key) of
                Inl e \<Rightarrow> Inr PyNone
              | Inr vs \<Rightarrow> convert_all py_int PyInt vs)
           else
             (case getitem d (chars key) of
                Inl e \<Rightarrow> Inr PyNone
              | Inr vs \<Rightarrow> convert_all float PyFloat vs))
        else
          (if py_is key (literal ''NSTEP'') then
             (case getitem d (chars key) of
                Inl e \<Rightarrow> Inr PyNone
              | Inr vs \<Rightarrow> convert_last py_int PyInt vs)
           else
             (case getitem d (chars key) of
                Inl e \<Rightarrow> Inr PyNone
              | Inr vs \<Rightarrow> convert_last float PyFloat vs)))"

text \<open>
  The part of an \<open>Amber\<close> object that the parser, the queries and the watcher use.
  \<open>process\<close> is \<open>None\<close> before the first launch and otherwise holds what
  \<open>self._process.isRunning()\<close> answers. The energy file is not part of the object: every
  operation that reads it takes its lines as they are at that moment.
\<close>

record Amber =
  protocol_type :: ProtocolType
  stdout_dict :: MultiDict
  is_watching :: bool
  process :: "bool option"

definition Amber_update_energy_dict :: "Amber \<Rightarrow> string list \<Rightarrow> error option \<times> Amber" where
  "Amber_update_energy_dict self nrg =
     (case update_energy_dict (protocol_type self) nrg (stdout_dict self) of
        (e, d) \<Rightarrow> (e, self\<lparr>stdout_dict := d\<rparr>))"

text \<open>
  \<open>getRecord\<close> (lines 576 to 588) passes the key \<open>record.strip().upper()\<close>, a string
  built by the call; \<open>n\<close> is the allocation that creates it. \<open>getStep\<close> (lines 613 to
  616) passes the literal \<open>'NSTEP'\<close>.
\<close>

definition getRecord :: "(string \<Rightarrow> 'f option) \<Rightarrow> Amber \<Rightarrow> string list \<Rightarrow> nat \<Rightarrow> strobj \<Rightarrow> flag \<Rightarrow> (error + 'f pyval) \<times> Amber" where
  "getRecord float self nrg n record time_series =
     (case Amber_update_energy_dict self nrg of
        (Some e, self') \<Rightarrow> (Inl e, self')
      | (None, self') \<Rightarrow>
          (get_stdout_record float (stdout_dict self')
             (StrObj (Runtime n) (upper (strip (chars record)))) time_series, self'))"

definition getStep :: "(string \<Rightarrow> 'f option) \<Rightarrow> Amber \<Rightarrow> string list \<Rightarrow> flag \<Rightarrow> (error + 'f pyval) \<times> Amber" where
  "getStep float self nrg time_series =
     (case Amber_update_energy_dict self nrg of
        (Some e, self') \<Rightarrow> (Inl e, self')
      | (None, self') \<Rightarrow>
          (get_stdout_record float (stdout_dict self') (literal ''NSTEP'') time_series, self'))"

subsection \<open>The watcher: \<open>Handler.on_any_event\<close> and \<open>Amber.start\<close>\<close>

datatype event_type = modified | created | deleted | moved

text \<open>\<open>on_any_event\<close> (lines 107 to 116), with the lines of the energy file at the event.\<close>

definition on_any_event :: "Amber \<Rightarrow> event_type \<Rightarrow> string list \<Rightarrow> error option \<times> Amber" where
  "on_any_event self ev nrg =
     (if ev = modified then
        Amber_update_energy_dict
          (if \<not> is_watching self then self\<lparr>stdout_dict := [], is_watching := True\<rparr> else self)
          nrg
      else (None, self))"

text \<open>
  \<open>start\<close> (lines 393 to 436), reduced to the fields above: the command line, the README
  file and the timer are left out. \<open>alive\<close> is whether the process that \<open>Process.run\<close>
  launches is running.
\<close>

definition start :: "Amber \<Rightarrow> bool \<Rightarrow> Amber" where
  "start self alive =
     (case process self of
        Some True \<Rightarrow> self
      | _ \<Rightarrow> self\<lparr>is_watching := False, process := Some alive\<rparr>)"

text \<open>
  The observer thread hands the events of the working directory to the handler one after
  the other; an exception that leaves the handler ends the delivery.
\<close>

fun dispatch_events :: "Amber \<Rightarrow> (event_type \<times> string list) list \<Rightarrow> error option \<times> Amber" where
  "dispatch_events self [] = (None, self)"
| "dispatch_events self ((ev, nrg) # evs) =
     (case on_any_event self ev nrg of
        (None, self') \<Rightarrow> dispatch_events self' evs
      | (Some e, self') \<Rightarrow> (Some e, self'))"

subsection \<open>\<open>Amber.getFrames\<close>\<close>

text \<open>
  A trajectory is the list of its frames, \<open>n_frames\<close> its length; \<open>getTrajectory\<close> gives
  \<open>None\<close> when there is no trajectory file. The Sire system read back from the frame file
  is identified with the frame written to it. An element of an index list is an \<open>int\<close>
  or an object of another type.
\<close>

datatype item = IntItem int | OtherItem

datatype indices = NoIndices | SingleIndex int | IndexList "item list"

definition is_int :: "item \<Rightarrow> bool" where
  "is_int it = (case it of IntItem _ \<Rightarrow> True | OtherItem \<Rightarrow> False)"

definition int_of :: "item \<Rightarrow> int" where
  "int_of it = (case it of IntItem x \<Rightarrow> x | OtherItem \<Rightarrow> 0)"

text \<open>
  The choice of the index list (lines 516 to 529).
\<close>

definition frame_indices :: "'fr list \<Rightarrow> indices \<Rightarrow> error + int list" where
  "frame_indices traj ind =
     (case ind of
        NoIndices \<Rightarrow> Inr (map int [0 ..< length traj])
      | SingleIndex x \<Rightarrow> Inr [x]
      | IndexList its \<Rightarrow>
          (if list_all is_int its then Inr (map int_of its) else Inl ValueError))"

text \<open>\<open>traj[x]\<close>: a negative index counts from the end.\<close>

definition frame_at :: "'fr list \<Rightarrow> int \<Rightarrow> 'fr" where
  "frame_at traj x = (if x < 0 then traj ! nat (int (length traj) + x) else traj ! nat x)"

text \<open>
  The loop over the indices (lines 538 to 555). The statement that should raise
  ValueError builds its message with \<^verbatim>\<open>"..." %s (x, max_frame)\<close>, which calls the name
  \<open>s\<close>; no such name is defined, so evaluating the message raises NameError. The flag
  says whether the local variable \<open>frame_file\<close> has been assigned.
\<close>

fun frames_loop :: "'fr list \<Rightarrow> int \<Rightarrow> int list \<Rightarrow> 'fr list \<times> bool \<Rightarrow> error + 'fr list \<times> bool" where
  "frames_loop traj max_frame [] acc = Inr acc"
| "frames_loop traj max_frame (x # xs) acc =
     (if \<bar>x\<bar> > max_frame then Inl NameError
      else frames_loop traj max_frame xs (fst acc @ [frame_at traj x], True))"

definition getFrames :: "'fr list option \<Rightarrow> indices \<Rightarrow> error + 'fr list option" where
  "getFrames trajectory ind =
     (case trajectory of
        None \<Rightarrow> Inr None
      | Some traj \<Rightarrow>
          (case frame_indices traj ind of
             Inl e \<Rightarrow> Inl e
           | Inr xs \<Rightarrow>
               (case frames_loop traj (int (length traj) - 1) xs ([], False) of
                  Inl e \<Rightarrow> Inl e
                | Inr (frames, assigned) \<Rightarrow>
                    (if assigned then Inr (Some frames) else Inl UnboundLocalError))))"

subsection \<open>The executable chosen by \<open>Amber.__init__\<close>\<close>

text \<open>
  Lines 146 to 162. What \<open>self._exe\<close> holds after them: nothing assigned by these lines,
  a path, or the protocol object. \<open>environ\<close> is the environment, \<open>isfile\<close> is
  \<open>os.path.isfile\<close>, and \<open>sander_on_path\<close> is what
  \<open>findExe("sander").absoluteFilePath()\<close> gives, an exception when the search fails.
\<close>

datatype 'p exe_value = NotAssigned | ExePath string | ExeProtocol 'p

definition init_exe :: "string option \<Rightarrow> 'p \<Rightarrow> (string \<rightharpoonup> string) \<Rightarrow> (string \<Rightarrow> bool) \<Rightarrow> error + string \<Rightarrow> error + 'p exe_value" where
  "init_exe exe protocol environ isfile sander_on_path =
     (case exe of
        None \<Rightarrow>
          (case environ ''AMBERHOME'' of
             Some amber_home \<Rightarrow>
               (if isfile (amber_home @ ''/bin/sander'')
                then Inr (ExePath (amber_home @ ''/bin/sander''))
                else Inr NotAssigned)
           | None \<Rightarrow>
               (case sander_on_path of Inl e \<Rightarrow> Inl e | Inr p \<Rightarrow> Inr (ExePath p)))
      | Some x \<Rightarrow> (if isfile x then Inr (ExeProtocol protocol) else Inl IOError))"

section \<open>Atom matching and scoring of \<open>Align/__init__.py\<close>\<close>

text \<open>
  A mapping is the list of the items of a dictionary from atom indices of the first
  molecule to atom indices of the second. The Sire calls are parameters: \<open>align m0 m1 mp\<close>
  is \<open>m0.move().align(m1, AtomResultMatcher(mp)).molecule()\<close>, \<open>coords m i\<close> is
  \<open>m.atom(i).property("coordinates")\<close> and \<open>getRMSD\<close> is \<open>Sire.Maths.getRMSD\<close>. A score is
  an element of a linear order: floating-point numbers without NaN.
\<close>

type_synonym 'i mapping = "('i \<times> 'i) list"

text \<open>The loop over the mappings (lines 375 to 395); \<open>molecule0\<close> is reassigned by it.\<close>

fun scores_loop :: "('mol \<Rightarrow> 'mol \<Rightarrow> 'i mapping \<Rightarrow> 'mol) \<Rightarrow> ('mol \<Rightarrow> 'i \<Rightarrow> 'c) \<Rightarrow> ('c list \<Rightarrow> 'c list \<Rightarrow> 's) \<Rightarrow> bool \<Rightarrow> 'mol \<Rightarrow> 'mol \<Rightarrow> 'i mapping list \<Rightarrow> 's list" where
  "scores_loop align coords getRMSD is_align molecule0 molecule1 [] = []"
| "scores_loop align coords getRMSD is_align molecule0 molecule1 (mp # mps) =
     (let m0 = (if is_align then align molecule0 molecule1 mp else molecule0);
          c0 = map (\<lambda>(idx0, idx1). coords m0 idx0) mp;
          c1 = map (\<lambda>(idx0, idx1). coords molecule1 idx1) mp
      in getRMSD c0 c1 # scores_loop align coords getRMSD is_align m0 molecule1 mps)"

text \<open>A score multiplied by \<open>Units.Length.angstrom\<close>.\<close>

datatype 's length = Angstrom 's

fun magnitude :: "'s length \<Rightarrow> 's" where
  "magnitude (Angstrom x) = x"

text \<open>
  \<open>_score_rmsd\<close> (lines 338 to 407). Python's \<open>sorted\<close> is a stable sort; it is modelled
  by \<open>sort_key\<close>, the stable insertion sort of the library.
\<close>

definition score_rmsd :: "('mol \<Rightarrow> 'mol \<Rightarrow> 'i mapping \<Rightarrow> 'mol) \<Rightarrow> ('mol \<Rightarrow> 'i \<Rightarrow> 'c) \<Rightarrow> ('c list \<Rightarrow> 'c list \<Rightarrow> 's::linorder) \<Rightarrow> 'mol \<Rightarrow> 'mol \<Rightarrow> 'i mapping list \<Rightarrow> bool \<Rightarrow> 'i mapping list \<times> 's length list" where
  "score_rmsd align coords getRMSD molecule0 molecule1 mappings is_align =
     (let scores = scores_loop align coords getRMSD is_align molecule0 molecule1 mappings;
          keys = sort_key (\<lambda>k. scores ! k) [0 ..< length scores]
      in (map (\<lambda>x. mappings ! x) keys, map (\<lambda>x. Angstrom (scores ! x)) keys))"

text \<open>
  What \<open>matchAtoms\<close> returns: \<open>None\<close>, one mapping, a list of mappings, or the pair of the
  list of mappings and the list of their scores.
\<close>

datatype ('i, 's) matches = NoMatch | Single "'i mapping" | Mappings "'i mapping list"
  | WithScores "'i mapping list" "'s length list"

text \<open>
  \<open>matchAtoms\<close> (lines 113 to 198). The checks on the types of the arguments are left to
  the types of the model. \<open>mcs_matches\<close> is the list that \<open>findMCSmatches\<close> returns; the
  call is made once the arguments have passed validation. Each branch of the source calls
  \<open>_score_rmsd\<close> with the same arguments; the model names its result once.
\<close>

definition matchAtoms :: "('mol \<Rightarrow> 'mol \<Rightarrow> 'i mapping \<Rightarrow> 'mol) \<Rightarrow> ('mol \<Rightarrow> 'i \<Rightarrow> 'c) \<Rightarrow> ('c list \<Rightarrow> 'c list \<Rightarrow> 's::linorder) \<Rightarrow> 'i mapping list \<Rightarrow> 'mol \<Rightarrow> 'mol \<Rightarrow> string \<Rightarrow> int \<Rightarrow> bool \<Rightarrow> error + ('i, 's) matches" where
  "matchAtoms align coords getRMSD mcs_matches mol0 mol1 scoring_function matches return_scores =
     (let sf = upper (filter (\<lambda>c. c \<noteq> CHR '' '') scoring_function) in
      if sf \<notin> set [''RMSD'', ''RMSDALIGN''] then Inl ValueError
      else if matches < 0 then Inl ValueError
      else
        let is_align = (sf = ''RMSDALIGN'');
            mappings = mcs_matches
        in
        if length mappings = 0 then Inr NoMatch
        else
          (case score_rmsd align coords getRMSD mol0 mol1 mappings is_align of
             (sorted_mappings, scores) \<Rightarrow>
               if matches = 1 then
                 (case sorted_mappings of
                    [] \<Rightarrow> Inl IndexError
                  | m # _ \<Rightarrow> Inr (Single m))
               else if return_scores then
                 Inr (WithScores (take (nat matches) sorted_mappings) (take (nat matches) scores))
               else Inr (Mappings (take (nat matches) sorted_mappings))))"

section \<open>Frame access\<close>

text \<open>
  C10: for a process with a trajectory, \<open>getFrames\<close> with an empty list of indices does
  not return an empty list of frames. The empty list passes the check of the index
  types, the loop body never runs, and removing the temporary frame file reads the local
  variable \<open>frame_file\<close>, which only the loop body assigns: the call raises
  UnboundLocalError.
\<close>

theorem getFrames_empty_index_list:
  "getFrames (Some traj) (IndexList []) = Inl UnboundLocalError \<and>
   getFrames (Some traj) (IndexList []) \<noteq> Inr (Some [])"
  by (simp add: getFrames_def frame_indices_def)

theorem getFrames_empty_index_list_witness:
  "getFrames (Some [''f0'', ''f1'']) (IndexList []) = Inl UnboundLocalError"
  using getFrames_empty_index_list [of "[''f0'', ''f1'']"] by simp

text \<open>
  C5: for a trajectory of \<open>n \<ge> 1\<close> frames, \<open>getFrames\<close> succeeds at index \<open>0\<close> and at
  index \<open>n - 1\<close>, and returns the frame asked for. At index \<open>n\<close> the range check fires
  and the call raises, but what it raises is NameError, from the malformed message of
  the \<open>raise\<close> statement, and not the ValueError for an index out of range.
\<close>

theorem getFrames_bounds:
  assumes "traj \<noteq> []"
  shows "getFrames (Some traj) (SingleIndex 0) = Inr (Some [hd traj]) \<and>
         getFrames (Some traj) (SingleIndex (int (length traj) - 1)) = Inr (Some [last traj]) \<and>
         getFrames (Some traj) (SingleIndex (int (length traj))) = Inl NameError"
proof -
  from assms have n: "0 < length traj" by simp
  have first: "getFrames (Some traj) (SingleIndex 0) = Inr (Some [hd traj])"
    using assms by (simp add: getFrames_def frame_indices_def frame_at_def hd_conv_nth)
  have "nat (int (length traj) - 1) = length traj - 1" by simp
  with n have "frame_at traj (int (length traj) - 1) = last traj"
    using assms by (simp add: frame_at_def last_conv_nth)
  with n have lst: "getFrames (Some traj) (SingleIndex (int (length traj) - 1)) = Inr (Some [last traj])"
    by (simp add: getFrames_def frame_indices_def)
  have past: "getFrames (Some traj) (SingleIndex (int (length traj))) = Inl NameError"
    by (simp add: getFrames_def frame_indices_def)
  from first lst past show ?thesis by simp
qed

theorem getFrames_bounds_witness:
  "getFrames (Some [''f0'', ''f1'', ''f2'']) (SingleIndex 0) = Inr (Some [''f0'']) \<and>
   getFrames (Some [''f0'', ''f1'', ''f2'']) (SingleIndex 2) = Inr (Some [''f2'']) \<and>
   getFrames (Some [''f0'', ''f1'', ''f2'']) (SingleIndex 3) = Inl NameError"
  using getFrames_bounds [of "[''f0'', ''f1'', ''f2'']"] by simp

section \<open>The executable\<close>

text \<open>
  C9: the constructor looks at the explicit \<open>exe\<close> argument first. When a path is given
  and the file exists, \<open>self._exe\<close> is set to the protocol object, not to the path. When
  no path is given and \<open>AMBERHOME\<close> is set but holds no \<open>bin/sander\<close>, the system path is
  not searched and nothing is raised: \<open>self._exe\<close> is left unassigned.
\<close>

theorem init_exe_defects:
  "(isfile x \<longrightarrow>
      init_exe (Some x) protocol environ isfile sander_on_path = Inr (ExeProtocol protocol)) \<and>
   (environ ''AMBERHOME'' = Some home \<and> \<not> isfile (home @ ''/bin/sander'') \<longrightarrow>
      init_exe None protocol environ isfile sander_on_path = Inr NotAssigned)"
  by (simp add: init_exe_def)

theorem init_exe_defects_witness:
  "init_exe (Some ''/opt/amber/bin/pmemd'') MINIMISATION Map.empty
      (\<lambda>p. p = ''/opt/amber/bin/pmemd'') (Inr ''/usr/bin/sander'')
     = Inr (ExeProtocol MINIMISATION) \<and>
   init_exe None MINIMISATION [''AMBERHOME'' \<mapsto> ''/opt/amber'']
      (\<lambda>p. p = ''/usr/bin/sander'') (Inr ''/usr/bin/sander'')
     = Inr NotAssigned"
  using init_exe_defects [of "\<lambda>p. p = ''/opt/amber/bin/pmemd''" "''/opt/amber/bin/pmemd''"
                             MINIMISATION Map.empty "Inr ''/usr/bin/sander''"]
        init_exe_defects [of "\<lambda>p. p = ''/usr/bin/sander''" "''x''" MINIMISATION
                             "[''AMBERHOME'' \<mapsto> ''/opt/amber'']" "Inr ''/usr/bin/sander''"
                             "''/opt/amber''"]
  by simp

section \<open>Scoring and matching\<close>

lemma length_scores_loop:
  "length (scores_loop align coords getRMSD is_align m0 m1 mps) = length mps"
  by (induction mps arbitrary: m0) (simp_all add: Let_def)

lemma score_rmsd_lengths:
  assumes "score_rmsd align coords getRMSD m0 m1 mps is_align = (ms, ss)"
  shows "length ms = length mps" and "length ss = length mps"
  using assms by (auto simp: score_rmsd_def Let_def length_scores_loop)

lemma score_rmsd_zip:
  assumes "score_rmsd align coords getRMSD m0 m1 mps is_align = (ms, ss)"
    and "scores = scores_loop align coords getRMSD is_align m0 m1 mps"
  shows "zip ms (map magnitude ss) =
         map (\<lambda>k. (mps ! k, scores ! k)) (sort_key (\<lambda>k. scores ! k) [0 ..< length mps])"
  using assms
  by (auto simp: score_rmsd_def Let_def length_scores_loop zip_map_map zip_same_conv_map o_def)

lemma zip_as_map_nth:
  assumes "length xs = length ys"
  shows "zip xs ys = map (\<lambda>k. (xs ! k, ys ! k)) [0 ..< length xs]"
  using assms by (intro nth_equalityI) simp_all

lemma score_rmsd_sorted:
  assumes "score_rmsd align coords getRMSD m0 m1 mps is_align = (ms, ss)"
  shows "sorted (map magnitude ss)"
proof -
  define scores where "scores = scores_loop align coords getRMSD is_align m0 m1 mps"
  have "map magnitude ss = map (\<lambda>k. scores ! k) (sort_key (\<lambda>k. scores ! k) [0 ..< length scores])"
    using assms by (auto simp: score_rmsd_def Let_def scores_def o_def)
  then show ?thesis by (simp add: sorted_sort_key)
qed

lemma score_rmsd_stable:
  assumes "score_rmsd align coords getRMSD m0 m1 mps is_align = (ms, ss)"
    and "scores = scores_loop align coords getRMSD is_align m0 m1 mps"
  shows "filter (\<lambda>(m, s). s = v) (zip ms (map magnitude ss)) =
         filter (\<lambda>(m, s). s = v) (zip mps scores)"
proof -
  have len: "length mps = length scores"
    using assms(2) by (simp add: length_scores_loop)
  let ?pair = "\<lambda>k. (mps ! k, scores ! k)"
  have "filter (\<lambda>(m, s). s = v) (zip ms (map magnitude ss)) =
        map ?pair (filter (\<lambda>k. scores ! k = v) (sort_key (\<lambda>k. scores ! k) [0 ..< length mps]))"
    by (simp add: score_rmsd_zip [OF assms] filter_map o_def)
  also have "\<dots> = map ?pair (filter (\<lambda>k. scores ! k = v) [0 ..< length mps])"
    by (simp add: sort_key_stable)
  also have "\<dots> = filter (\<lambda>(m, s). s = v) (zip mps scores)"
    by (simp add: zip_as_map_nth [OF len] filter_map o_def)
  finally show ?thesis .
qed

lemma score_rmsd_mset:
  assumes "score_rmsd align coords getRMSD m0 m1 mps is_align = (ms, ss)"
    and "scores = scores_loop align coords getRMSD is_align m0 m1 mps"
  shows "mset (zip ms (map magnitude ss)) = mset (zip mps scores)"
proof -
  have len: "length mps = length scores"
    using assms(2) by (simp add: length_scores_loop)
  let ?pair = "\<lambda>k. (mps ! k, scores ! k)"
  have "mset (zip ms (map magnitude ss)) = image_mset ?pair (mset [0 ..< length mps])"
    by (simp add: score_rmsd_zip [OF assms])
  also have "\<dots> = mset (zip mps scores)"
    by (simp add: zip_as_map_nth [OF len])
  finally show ?thesis .
qed

lemma score_rmsd_mset_mappings:
  assumes "score_rmsd align coords getRMSD m0 m1 mps is_align = (ms, ss)"
  shows "mset ms = mset mps"
proof -
  have "ms = map (\<lambda>k. mps ! k) (sort_key (\<lambda>k. scores_loop align coords getRMSD is_align m0 m1 mps ! k) [0 ..< length mps])"
    using assms by (auto simp: score_rmsd_def Let_def length_scores_loop)
  then have "mset ms = image_mset (\<lambda>k. mps ! k) (mset [0 ..< length mps])"
    by simp
  also have "\<dots> = mset (map (\<lambda>k. mps ! k) [0 ..< length mps])" by simp
  also have "\<dots> = mset mps" by (simp only: map_nth)
  finally show ?thesis .
qed


text \<open>
  C2: for a non-empty list of candidate mappings, the scores that \<open>_score_rmsd\<close> returns
  are in non-decreasing order, the mappings come back with their own scores (the output
  pairs are a permutation of the input pairs), and the candidates of any one score keep
  their input order. \<open>matchAtoms\<close> with \<open>matches\<close> greater than \<open>1\<close> returns a prefix of
  that sequence, which is ordered as well.
\<close>

theorem score_rmsd_sorted_stable:
  assumes "mappings \<noteq> []"
    and "score_rmsd align coords getRMSD m0 m1 mappings is_align = (ms, ss)"
    and "scores = scores_loop align coords getRMSD is_align m0 m1 mappings"
  shows "sorted (map magnitude ss) \<and>
         mset (zip ms (map magnitude ss)) = mset (zip mappings scores) \<and>
         (\<forall>v. filter (\<lambda>(m, s). s = v) (zip ms (map magnitude ss)) =
              filter (\<lambda>(m, s). s = v) (zip mappings scores)) \<and>
         (1 < matches \<and> upper (filter (\<lambda>c. c \<noteq> CHR '' '') sf) \<in> {''RMSD'', ''RMSDALIGN''} \<and>
          is_align = (upper (filter (\<lambda>c. c \<noteq> CHR '' '') sf) = ''RMSDALIGN'') \<longrightarrow>
            matchAtoms align coords getRMSD mappings m0 m1 sf matches True =
              Inr (WithScores (take (nat matches) ms) (take (nat matches) ss)) \<and>
            matchAtoms align coords getRMSD mappings m0 m1 sf matches False =
              Inr (Mappings (take (nat matches) ms)) \<and>
            sorted (map magnitude (take (nat matches) ss)))"
proof -
  have srt: "sorted (map magnitude ss)"
    by (rule score_rmsd_sorted [OF assms(2)])
  have perm: "mset (zip ms (map magnitude ss)) = mset (zip mappings scores)"
    by (rule score_rmsd_mset [OF assms(2,3)])
  have stable: "\<forall>v. filter (\<lambda>(m, s). s = v) (zip ms (map magnitude ss)) =
                    filter (\<lambda>(m, s). s = v) (zip mappings scores)"
    using score_rmsd_stable [OF assms(2,3)] by blast
  have pre: "sorted (map magnitude (take (nat matches) ss))"
    using srt by (simp add: take_map [symmetric] sorted_wrt_take)
  have calls: "matchAtoms align coords getRMSD mappings m0 m1 sf matches True =
              Inr (WithScores (take (nat matches) ms) (take (nat matches) ss)) \<and>
            matchAtoms align coords getRMSD mappings m0 m1 sf matches False =
              Inr (Mappings (take (nat matches) ms))"
    if "1 < matches" "upper (filter (\<lambda>c. c \<noteq> CHR '' '') sf) \<in> {''RMSD'', ''RMSDALIGN''}"
       "is_align = (upper (filter (\<lambda>c. c \<noteq> CHR '' '') sf) = ''RMSDALIGN'')"
    using that assms(1,2) by (auto simp: matchAtoms_def Let_def)
  from srt perm stable pre calls show ?thesis by blast
qed

theorem score_rmsd_sorted_stable_witness:
  "sorted (map magnitude [Angstrom (1::nat), Angstrom 3, Angstrom 3]) \<and>
   filter (\<lambda>(m, s). s = 3)
       (zip [[(1::nat, 0::nat)], [(3, 0)], [(3, 1)]] (map magnitude [Angstrom (1::nat), Angstrom 3, Angstrom 3]))
     = filter (\<lambda>(m, s). s = 3) (zip [[(3, 0)], [(1, 0)], [(3, 1)]] [3, 1, 3]) \<and>
   matchAtoms (\<lambda>a b mp. a) (\<lambda>m i. i) (\<lambda>xs ys. sum_list xs) [[(3::nat, 0::nat)], [(1, 0)], [(3, 1)]]
       () () ''RMSD align'' 2 True
     = Inr (WithScores [[(1, 0)], [(3, 0)]] [Angstrom (1::nat), Angstrom 3])"
proof -
  let ?mps = "[[(3::nat, 0::nat)], [(1, 0)], [(3, 1)]]"
  have a1: "?mps \<noteq> []" by simp
  have a2: "score_rmsd (\<lambda>(a::unit) (b::unit) mp. a) (\<lambda>m i. i) (\<lambda>(xs::nat list) (ys::nat list). sum_list xs) () () ?mps True
              = ([[(1, 0)], [(3, 0)], [(3, 1)]], [Angstrom 1, Angstrom 3, Angstrom 3])"
    by code_simp
  have a3: "[3, 1, 3] = scores_loop (\<lambda>(a::unit) (b::unit) mp. a) (\<lambda>m i. i) (\<lambda>(xs::nat list) (ys::nat list). sum_list xs) True () () ?mps"
    by code_simp
  have a4: "upper (filter (\<lambda>c. c \<noteq> CHR '' '') ''RMSD align'') = ''RMSDALIGN''"
    by code_simp
  show ?thesis
    using score_rmsd_sorted_stable [OF a1 a2 a3, of 2 "''RMSD align''"] a4 by simp
qed

text \<open>
  C3: when the matcher yields at least one candidate, \<open>matchAtoms\<close> with \<open>matches = 1\<close>
  returns a single mapping, the first of the sorted ones, and not a list. With
  \<open>matches = K > 1\<close> and \<open>N < K\<close> candidates it returns all \<open>N\<close> mappings in sorted order
  (with their scores when \<open>return_scores\<close> is set).
\<close>

theorem matchAtoms_return_shape:
  assumes "upper (filter (\<lambda>c. c \<noteq> CHR '' '') sf) \<in> {''RMSD'', ''RMSDALIGN''}"
    and "mcs \<noteq> []"
    and "score_rmsd align coords getRMSD m0 m1 mcs
           (upper (filter (\<lambda>c. c \<noteq> CHR '' '') sf) = ''RMSDALIGN'') = (ms, ss)"
  shows "ms \<noteq> [] \<and>
         matchAtoms align coords getRMSD mcs m0 m1 sf 1 return_scores = Inr (Single (hd ms)) \<and>
         (1 < K \<and> int (length mcs) < K \<longrightarrow>
            matchAtoms align coords getRMSD mcs m0 m1 sf K False = Inr (Mappings ms) \<and>
            matchAtoms align coords getRMSD mcs m0 m1 sf K True = Inr (WithScores ms ss) \<and>
            length ms = length mcs \<and> mset ms = mset mcs \<and> sorted (map magnitude ss))"
proof -
  have len: "length ms = length mcs" "length ss = length mcs"
    using score_rmsd_lengths [OF assms(3)] by simp_all
  with assms(2) have ne: "ms \<noteq> []" by auto
  then obtain m rest where ms: "ms = m # rest" by (cases ms) auto
  have one: "matchAtoms align coords getRMSD mcs m0 m1 sf 1 return_scores = Inr (Single (hd ms))"
    using assms ms by (auto simp: matchAtoms_def Let_def)
  have many: "matchAtoms align coords getRMSD mcs m0 m1 sf K False = Inr (Mappings ms) \<and>
              matchAtoms align coords getRMSD mcs m0 m1 sf K True = Inr (WithScores ms ss)"
    if "1 < K" "int (length mcs) < K"
    using that assms len by (auto simp: matchAtoms_def Let_def)
  have perm: "mset ms = mset mcs"
    by (rule score_rmsd_mset_mappings [OF assms(3)])
  have srt: "sorted (map magnitude ss)"
    by (rule score_rmsd_sorted [OF assms(3)])
  from ne one many len perm srt show ?thesis by blast
qed

theorem matchAtoms_return_shape_witness:
  "matchAtoms (\<lambda>a b mp. a) (\<lambda>m i. i) (\<lambda>xs ys. sum_list xs) [[(3, 0)], [(1, 0)], [(3, 1::nat)]]
       () () ''RMSD'' 1 False
     = Inr (Single [(1, 0)] :: (nat, nat) matches) \<and>
   matchAtoms (\<lambda>a b mp. a) (\<lambda>m i. i) (\<lambda>xs ys. sum_list xs) [[(3, 0)], [(1, 0)], [(3, 1::nat)]]
       () () ''RMSD'' 5 False
     = Inr (Mappings [[(1, 0)], [(3, 0)], [(3, 1)]] :: (nat, nat) matches)"
proof -
  let ?mps = "[[(3::nat, 0::nat)], [(1, 0)], [(3, 1)]]"
  have a0: "upper (filter (\<lambda>c. c \<noteq> CHR '' '') ''RMSD'') = ''RMSD''"
    by code_simp
  have a1: "upper (filter (\<lambda>c. c \<noteq> CHR '' '') ''RMSD'') \<in> {''RMSD'', ''RMSDALIGN''}"
    unfolding a0 by simp
  have a2: "?mps \<noteq> []" by simp
  have "score_rmsd (\<lambda>(a::unit) (b::unit) mp. a) (\<lambda>m i. i) (\<lambda>(xs::nat list) (ys::nat list). sum_list xs) () () ?mps False
              = ([[(1, 0)], [(3, 0)], [(3, 1)]], [Angstrom 1, Angstrom 3, Angstrom 3])"
    by code_simp
  then have a3: "score_rmsd (\<lambda>(a::unit) (b::unit) mp. a) (\<lambda>m i. i) (\<lambda>(xs::nat list) (ys::nat list). sum_list xs) () () ?mps
               (upper (filter (\<lambda>c. c \<noteq> CHR '' '') ''RMSD'') = ''RMSDALIGN'')
              = ([[(1, 0)], [(3, 0)], [(3, 1)]], [Angstrom 1, Angstrom 3, Angstrom 3])"
    unfolding a0 by simp
  show ?thesis
    using matchAtoms_return_shape [OF a1 a2 a3, where K = 5] by simp
qed

text \<open>
  C7: when the arguments pass validation and the matcher returns no candidate,
  \<open>matchAtoms\<close> returns \<open>None\<close> and raises nothing.
\<close>

theorem matchAtoms_no_candidates:
  assumes "upper (filter (\<lambda>c. c \<noteq> CHR '' '') sf) \<in> {''RMSD'', ''RMSDALIGN''}"
    and "0 \<le> matches"
  shows "matchAtoms align coords getRMSD [] m0 m1 sf matches return_scores = Inr NoMatch"
  using assms by (auto simp: matchAtoms_def Let_def)

theorem matchAtoms_no_candidates_witness:
  "matchAtoms (\<lambda>a b mp. a) (\<lambda>m i. i) (\<lambda>xs ys. sum_list xs) ([] :: nat mapping list)
       () () ''RMSD align'' 1 False = (Inr NoMatch :: error + (nat, nat) matches)"
proof -
  have "upper (filter (\<lambda>c. c \<noteq> CHR '' '') ''RMSD align'') = ''RMSDALIGN''"
    by code_simp
  then have a1: "upper (filter (\<lambda>c. c \<noteq> CHR '' '') ''RMSD align'') \<in> {''RMSD'', ''RMSDALIGN''}"
    by simp
  show ?thesis
    using matchAtoms_no_candidates [OF a1, of 1] by simp
qed

section \<open>The record parser\<close>

lemma map_of_setitem:
  "map_of (setitem d k v) k' =
     (if k' = k then Some ((case map_of d k of None \<Rightarrow> [] | Some vs \<Rightarrow> vs) @ [v])
      else map_of d k')"
  by (induction d k v rule: setitem.induct) auto

lemma setitem_not_Nil: "setitem d k v \<noteq> []"
  by (cases d) (auto split: if_splits)

lemma records_loop_append:
  "records_loop d (xs @ ys) =
     (case records_loop d xs of
        Next d' \<Rightarrow> records_loop d' ys
      | Return d' \<Rightarrow> Return d'
      | Raise e d' \<Rightarrow> Raise e d')"
  by (induction xs arbitrary: d) (auto simp: Let_def split: sum.splits bool.splits)

lemma lines_loop_append:
  "lines_loop proto st (xs @ ys) =
     (case lines_loop proto st xs of
        Next st' \<Rightarrow> lines_loop proto st' ys
      | Return d' \<Rightarrow> Return d'
      | Raise e d' \<Rightarrow> Raise e d')"
  by (induction xs arbitrary: st) (auto split: flow.splits)

lemma records_loop_Return:
  "records_loop d recs = Return d' \<Longrightarrow> \<exists>v. not_updated d' v = Inr True"
proof (induction recs arbitrary: d)
  case Nil
  then show ?case by simp
next
  case (Cons r recs)
  obtain key val where r: "r = (key, val)" by (cases r)
  show ?case
  proof (cases "strip key = ''NSTEP''")
    case True
    show ?thesis
    proof (cases "not_updated d val")
      case (Inl e)
      with Cons.prems r True show ?thesis by simp
    next
      case (Inr b)
      show ?thesis
      proof (cases b)
        case True
        with Cons.prems r \<open>strip key = ''NSTEP''\<close> Inr have "d' = d" by simp
        with Inr True show ?thesis by auto
      next
        case False
        with Cons.prems r \<open>strip key = ''NSTEP''\<close> Inr
        have "records_loop (setitem d ''NSTEP'' val) recs = Return d'" by simp
        then show ?thesis by (rule Cons.IH)
      qed
    qed
  next
    case False
    with Cons.prems r have "records_loop (setitem d (strip key) val) recs = Return d'"
      by simp
    then show ?thesis by (rule Cons.IH)
  qed
qed

lemma records_loop_no_step:
  assumes "\<forall>(k, w) \<in> set recs. strip k \<noteq> ''NSTEP''"
  shows "records_loop d recs = Next (foldl (\<lambda>a (k, w). setitem a (strip k) w) d recs)"
  using assms
proof (induction recs arbitrary: d)
  case Nil
  then show ?case by simp
next
  case (Cons r recs)
  obtain key val where r: "r = (key, val)" by (cases r)
  from Cons.prems r have k: "strip key \<noteq> ''NSTEP''"
    and rest: "\<forall>(k, w) \<in> set recs. strip k \<noteq> ''NSTEP''"
    by auto
  from Cons.IH [OF rest, of "setitem d (strip key) val"] k r show ?case by simp
qed

lemma map_of_foldl_no_step:
  assumes "\<forall>(k, w) \<in> set recs. strip k \<noteq> ''NSTEP''"
  shows "map_of (foldl (\<lambda>a (k, w). setitem a (strip k) w) d recs) ''NSTEP'' = map_of d ''NSTEP''"
  using assms
proof (induction recs arbitrary: d)
  case Nil
  then show ?case by simp
next
  case (Cons r recs)
  obtain key val where r: "r = (key, val)" by (cases r)
  from Cons.prems r have k: "strip key \<noteq> ''NSTEP''"
    and rest: "\<forall>(k, w) \<in> set recs. strip k \<noteq> ''NSTEP''"
    by auto
  from Cons.IH [OF rest, of "setitem d (strip key) val"] k r show ?case
    by (simp add: map_of_setitem)
qed

lemma process_line_dynamics:
  assumes "proto \<noteq> MINIMISATION"
  shows "process_line proto (h, d) line =
           (if line \<noteq> [] \<and> hd line \<noteq> CHR ''|'' then records_block h d line else Next (h, d))"
  using assms by (simp add: process_line_def)

lemma lines_loop_no_step:
  assumes "proto \<noteq> MINIMISATION"
    and "\<forall>l \<in> set ls. \<forall>(k, w) \<in> set (findall (upper l)). strip k \<noteq> ''NSTEP''"
  shows "lines_loop proto (h, d) ls =
           Next (h, foldl (\<lambda>a (k, w). setitem a (strip k) w) d
                      (concat (map (\<lambda>l. if l \<noteq> [] \<and> hd l \<noteq> CHR ''|'' then findall (upper l) else [])
                                   ls)))"
  using assms(2)
proof (induction ls arbitrary: d)
  case Nil
  then show ?case by simp
next
  case (Cons l ls)
  then have l: "\<forall>(k, w) \<in> set (findall (upper l)). strip k \<noteq> ''NSTEP''"
    and ls: "\<forall>l \<in> set ls. \<forall>(k, w) \<in> set (findall (upper l)). strip k \<noteq> ''NSTEP''"
    by auto
  have step: "process_line proto (h, d) l =
      Next (h, foldl (\<lambda>a (k, w). setitem a (strip k) w) d
                 (if l \<noteq> [] \<and> hd l \<noteq> CHR ''|'' then findall (upper l) else []))"
    by (simp add: process_line_dynamics [OF assms(1)] records_block_def
          records_loop_no_step [OF l])
  show ?case
    by (simp only: lines_loop.simps step flow.case Cons.IH [OF ls] list.map concat.simps
          foldl_append)
qed

lemma no_step_concat:
  assumes "\<forall>l \<in> set ls. \<forall>(k, w) \<in> set (findall (upper l)). strip k \<noteq> ''NSTEP''"
  shows "\<forall>(k, w) \<in> set (concat (map (\<lambda>l. if l \<noteq> [] \<and> hd l \<noteq> CHR ''|'' then findall (upper l) else [])
                                     ls)). strip k \<noteq> ''NSTEP''"
  using assms by (fastforce split: if_splits)

text \<open>
  C1, for frames that begin with the step count: in the dynamics dialect, take a frame
  whose first record is the step count, with no other step-count record on that line or on the lines that follow it,
  and a dictionary whose last step count differs from the frame's. Feeding the frame
  once stores every record of the frame once, under its stripped key, in the order of
  the log. Feeding the frame twice, in one reading of the file or in two successive
  readings, gives that same dictionary and raises nothing: exactly one frame is
  appended, not two. The step-count series has grown by one value, and the time-series
  query on the literal key \<open>'NSTEP'\<close> converts that series with \<open>int\<close>. For the line
  \<open>NSTEP = 100   TIME(PS) = 0.200  ETOT = -1234.5\<close> and its exact repeat, on an empty
  dictionary, the series of \<open>NSTEP\<close> is \<open>[100]\<close>; that instance follows the theorem.
\<close>

theorem duplicate_frame_appended_once:
  assumes "proto \<noteq> MINIMISATION"
    and "line \<noteq> []" and "hd line \<noteq> CHR ''|''"
    and "findall (upper line) = (key, v) # rest" and "strip key = ''NSTEP''"
    and "\<forall>(k, w) \<in> set rest. strip k \<noteq> ''NSTEP''"
    and "\<forall>l \<in> set others. \<forall>(k, w) \<in> set (findall (upper l)). strip k \<noteq> ''NSTEP''"
    and "not_updated d v = Inr False"
    and "series = (case map_of d ''NSTEP'' of None \<Rightarrow> [] | Some vs \<Rightarrow> vs)"
    and "recs = findall (upper line) @
                concat (map (\<lambda>l. if l \<noteq> [] \<and> hd l \<noteq> CHR ''|'' then findall (upper l) else [])
                            others)"
    and "once = foldl (\<lambda>a (k, w). setitem a (strip k) w) d recs"
  shows "update_energy_dict proto (line # others) d = (None, once) \<and>
         update_energy_dict proto ((line # others) @ (line # others)) d = (None, once) \<and>
         update_energy_dict proto (line # others) once = (None, once) \<and>
         map_of once ''NSTEP'' = Some (series @ [v]) \<and>
         get_stdout_record float once (literal ''NSTEP'') (PyBool True) =
           convert_all py_int PyInt (series @ [v])"
proof -
  let ?store = "\<lambda>a (k, w). setitem a (strip k) w"
  let ?tail = "concat (map (\<lambda>l. if l \<noteq> [] \<and> hd l \<noteq> CHR ''|'' then findall (upper l) else [])
                           others)"
  let ?d1 = "setitem d ''NSTEP'' v"
  have once: "once = foldl ?store (foldl ?store ?d1 rest) ?tail"
    using assms(4,5,10,11) by simp
  have "records_loop d (findall (upper line)) = Next (foldl ?store ?d1 rest)"
    using assms(4,5,8) by (simp add: records_loop_no_step [OF assms(6)])
  then have first: "process_line proto (h, d) line = Next (h, foldl ?store ?d1 rest)" for h
    using assms(2,3) by (simp add: process_line_dynamics [OF assms(1)] records_block_def)
  have fed: "lines_loop proto (h, d) (line # others) = Next (h, once)" for h
    by (simp only: lines_loop.simps first flow.case lines_loop_no_step [OF assms(1,7)] once)
  have "map_of once ''NSTEP'' = map_of ?d1 ''NSTEP''"
    unfolding once
    by (simp only: map_of_foldl_no_step [OF no_step_concat [OF assms(7)]]
          map_of_foldl_no_step [OF assms(6)])
  then have series: "map_of once ''NSTEP'' = Some (series @ [v])"
    using assms(9) by (simp add: map_of_setitem)
  then have dup: "not_updated once v = Inr True"
    by (simp add: not_updated_def)
  have again: "lines_loop proto (h, once) (line # ls) = Return once" for ls h
    using assms(2-5) dup
    by (simp add: process_line_dynamics [OF assms(1)] records_block_def)
  have one: "update_energy_dict proto (line # others) d = (None, once)"
    using fed [of False] by (simp add: update_energy_dict_def)
  have "lines_loop proto (False, d) ((line # others) @ (line # others)) = Return once"
    using fed [of False] again [of False others] by (simp only: lines_loop_append flow.case)
  then have two: "update_energy_dict proto ((line # others) @ (line # others)) d = (None, once)"
    by (simp add: update_energy_dict_def)
  have second: "update_energy_dict proto (line # others) once = (None, once)"
    using again [of False others] by (simp add: update_energy_dict_def)
  from series have "once \<noteq> []" by auto
  with series have query: "get_stdout_record float once (literal ''NSTEP'') (PyBool True) =
      convert_all py_int PyInt (series @ [v])"
    by (simp add: get_stdout_record_def getitem_def py_is_def literal_def)
  from one two second series query show ?thesis by simp
qed

theorem duplicate_frame_appended_once_witness:
  "update_energy_dict PRODUCTION
       [''NSTEP = 100   TIME(PS) = 0.200  ETOT = -1234.5'',
        ''NSTEP = 100   TIME(PS) = 0.200  ETOT = -1234.5''] []
     = (None, [(''NSTEP'', [''100'']), (''TIME(PS)'', [''0.200'']), (''ETOT'', [''-1234.5''])]) \<and>
   get_stdout_record (\<lambda>s. Some s)
       [(''NSTEP'', [''100'']), (''TIME(PS)'', [''0.200'']), (''ETOT'', [''-1234.5''])]
       (literal ''NSTEP'') (PyBool True)
     = Inr (PyList [PyInt 100]) \<and>
   update_energy_dict PRODUCTION
       [''NSTEP = 200   TIME(PS) = 0.400'', ''| banner'', '' Etot = -1230.0  EKtot = 5.5'',
        ''NSTEP = 200   TIME(PS) = 0.400'', ''| banner'', '' Etot = -1230.0  EKtot = 5.5'']
       [(''NSTEP'', [''100'']), (''TIME(PS)'', [''0.200'']), (''ETOT'', [''-1234.5''])]
     = (None, [(''NSTEP'', [''100'', ''200'']), (''TIME(PS)'', [''0.200'', ''0.400'']),
               (''ETOT'', [''-1234.5'', ''-1230.0'']), (''EKTOT'', [''5.5''])])"
proof -
  let ?line = "''NSTEP = 100   TIME(PS) = 0.200  ETOT = -1234.5''"
  let ?d1 = "[(''NSTEP'', [''100'']), (''TIME(PS)'', [''0.200'']), (''ETOT'', [''-1234.5''])]"
  have a1: "PRODUCTION \<noteq> MINIMISATION" by simp
  have a2: "?line \<noteq> []" by simp
  have a3: "hd ?line \<noteq> CHR ''|''" by simp
  have a4: "findall (upper ?line) =
      (''NSTEP'', ''100'') # [(''   TIME(PS)'', ''0.200''), (''  ETOT'', ''-1234.5'')]"
    by code_simp
  have a5: "strip ''NSTEP'' = ''NSTEP''" by code_simp
  have a6: "\<forall>(k, w) \<in> set [(''   TIME(PS)'', ''0.200''), (''  ETOT'', ''-1234.5'')].
              strip k \<noteq> ''NSTEP''"
    by code_simp
  have a7: "\<forall>l \<in> set ([] :: string list). \<forall>(k, w) \<in> set (findall (upper l)). strip k \<noteq> ''NSTEP''"
    by simp
  have a8: "not_updated [] ''100'' = Inr False" by (simp add: not_updated_def)
  have a9: "[] = (case map_of ([] :: MultiDict) ''NSTEP'' of None \<Rightarrow> [] | Some vs \<Rightarrow> vs)"
    by simp
  have a10: "[(''NSTEP'', ''100''), (''   TIME(PS)'', ''0.200''), (''  ETOT'', ''-1234.5'')] =
      findall (upper ?line) @
      concat (map (\<lambda>l. if l \<noteq> [] \<and> hd l \<noteq> CHR ''|'' then findall (upper l) else []) [])"
    by code_simp
  have a11: "?d1 = foldl (\<lambda>a (k, w). setitem a (strip k) w) []
      [(''NSTEP'', ''100''), (''   TIME(PS)'', ''0.200''), (''  ETOT'', ''-1234.5'')]"
    by code_simp
  have conv: "convert_all py_int PyInt ([] @ [''100'']) = (Inr (PyList [PyInt 100]) :: error + string pyval)"
    by code_simp
  note example = duplicate_frame_appended_once
      [OF a1 a2 a3 a4 a5 a6 a7 a8 a9 a10 a11, of "\<lambda>s. Some s"]
  have two: "update_energy_dict PRODUCTION [?line, ?line] [] = (None, ?d1)"
    using example [THEN conjunct2, THEN conjunct1] by simp
  have query: "get_stdout_record (\<lambda>s. Some s) ?d1 (literal ''NSTEP'') (PyBool True)
      = Inr (PyList [PyInt 100])"
    using example [THEN conjunct2, THEN conjunct2, THEN conjunct2, THEN conjunct2] conv
    by (rule trans)
  let ?top = "''NSTEP = 200   TIME(PS) = 0.400''"
  let ?others = "[''| banner'', '' Etot = -1230.0  EKtot = 5.5'']"
  let ?d2 = "[(''NSTEP'', [''100'', ''200'']), (''TIME(PS)'', [''0.200'', ''0.400'']),
              (''ETOT'', [''-1234.5'', ''-1230.0'']), (''EKTOT'', [''5.5''])]"
  have b2: "?top \<noteq> []" by simp
  have b3: "hd ?top \<noteq> CHR ''|''" by simp
  have b4: "findall (upper ?top) = (''NSTEP'', ''200'') # [(''   TIME(PS)'', ''0.400'')]"
    by code_simp
  have b6: "\<forall>(k, w) \<in> set [(''   TIME(PS)'', ''0.400'')]. strip k \<noteq> ''NSTEP''"
    by code_simp
  have b7: "\<forall>l \<in> set ?others. \<forall>(k, w) \<in> set (findall (upper l)). strip k \<noteq> ''NSTEP''"
    by code_simp
  have b8: "not_updated ?d1 ''200'' = Inr False" by code_simp
  have b9: "[''100''] = (case map_of ?d1 ''NSTEP'' of None \<Rightarrow> [] | Some vs \<Rightarrow> vs)"
    by simp
  have b10: "[(''NSTEP'', ''200''), (''   TIME(PS)'', ''0.400''), ('' ETOT'', ''-1230.0''),
              (''  EKTOT'', ''5.5'')] =
      findall (upper ?top) @
      concat (map (\<lambda>l. if l \<noteq> [] \<and> hd l \<noteq> CHR ''|'' then findall (upper l) else []) ?others)"
    by code_simp
  have b11: "?d2 = foldl (\<lambda>a (k, w). setitem a (strip k) w) ?d1
      [(''NSTEP'', ''200''), (''   TIME(PS)'', ''0.400''), ('' ETOT'', ''-1230.0''),
       (''  EKTOT'', ''5.5'')]"
    by code_simp
  have frames: "update_energy_dict PRODUCTION ((?top # ?others) @ (?top # ?others)) ?d1 = (None, ?d2)"
    by (rule duplicate_frame_appended_once
          [OF a1 b2 b3 b4 a5 b6 b7 b8 b9 b10 b11, THEN conjunct2, THEN conjunct1])
  then have frames': "update_energy_dict PRODUCTION
       [?top, ''| banner'', '' Etot = -1230.0  EKtot = 5.5'',
        ?top, ''| banner'', '' Etot = -1230.0  EKtot = 5.5''] ?d1 = (None, ?d2)"
    by simp
  from two query frames' show ?thesis by blast
qed

text \<open>
  Where the step count is not the first record of the frame, the records before it are
  stored again by the second feeding, since the parser only notices the repeat when it
  reaches the step count: the frame \<open>ETOT = -1234.5  NSTEP = 100\<close> fed twice leaves two
  values in the series of \<open>ETOT\<close>.
\<close>

theorem duplicate_frame_counterexample:
  "update_energy_dict PRODUCTION [''ETOT = -1234.5  NSTEP = 100''] []
     = (None, [(''ETOT'', [''-1234.5'']), (''NSTEP'', [''100''])]) \<and>
   update_energy_dict PRODUCTION
       [''ETOT = -1234.5  NSTEP = 100'', ''ETOT = -1234.5  NSTEP = 100''] []
     = (None, [(''ETOT'', [''-1234.5'', ''-1234.5'']), (''NSTEP'', [''100''])])"
  by code_simp

lemma not_updated_True:
  "not_updated d v = Inr True \<Longrightarrow> map_of d ''NSTEP'' \<noteq> None"
  by (auto simp: not_updated_def split: option.splits)

lemma header_record_Return:
  "header_record d line = Return d' \<Longrightarrow> d' = d \<and> (\<exists>v. not_updated d v = Inr True)"
  by (auto simp: header_record_def store_header_def Let_def
           split: if_splits list.splits sum.splits bool.splits)

lemma records_block_Return:
  "records_block h d line = Return d' \<Longrightarrow> \<exists>v. not_updated d' v = Inr True"
  by (auto simp: records_block_def split: flow.splits dest: records_loop_Return)

lemma process_line_Return:
  assumes "process_line proto (h, d) line = Return d'"
  shows "\<exists>v. not_updated d' v = Inr True"
proof -
  from assms consider
      (header) "header_record d line = Return d'"
    | (after_header) h' d1 where "records_block h' d1 line = Return d'"
    by (auto simp: process_line_def split: if_splits flow.splits)
  then show ?thesis
  proof cases
    case header
    then show ?thesis using header_record_Return by blast
  next
    case after_header
    then show ?thesis by (rule records_block_Return)
  qed
qed

text \<open>
  C4: once the lines before it have been processed, a line on which the parser confirms
  that there is no new frame ends the call: \<open>_update_energy_dict\<close> returns without an
  exception, and the dictionary after the call is the dictionary as it was when the test
  succeeded, whatever lines follow. The test is the one of the source, \<open>not_updated\<close>: in
  the minimisation dialect on the first token of the line after a header, and in the
  loop over the records on the value of a record \<open>NSTEP\<close>. The parser executes \<open>return\<close>
  nowhere else: whenever a line makes it return, the test holds on the returned
  dictionary.
\<close>

theorem no_new_frame_stops_silently:
  assumes "lines_loop proto (False, d0) before = Next (h, d)"
    and "line \<noteq> []" and "hd line \<noteq> CHR ''|''"
  shows "(proto = MINIMISATION \<and> h \<and> \<not> is_header_line line \<and>
            split (upper line) = x # toks \<and> not_updated d x = Inr True
          \<longrightarrow> update_energy_dict proto (before @ line # after) d0 = (None, d)) \<and>
         ((proto \<noteq> MINIMISATION \<or> (\<not> h \<and> \<not> is_header_line line)) \<and>
            findall (upper line) = pre @ (key, v) # post \<and> records_loop d pre = Next d' \<and>
            strip key = ''NSTEP'' \<and> not_updated d' v = Inr True
          \<longrightarrow> update_energy_dict proto (before @ line # after) d0 = (None, d')) \<and>
         (process_line proto (h, d) line = Return d''
          \<longrightarrow> (\<exists>w. not_updated d'' w = Inr True) \<and>
              update_energy_dict proto (before @ line # after) d0 = (None, d''))"
proof -
  have stop: "update_energy_dict proto (before @ line # after) d0 = (None, s)"
    if "process_line proto (h, d) line = Return s" for s
    using that assms(1) by (simp add: update_energy_dict_def lines_loop_append)
  have header: "process_line proto (h, d) line = Return d"
    if "proto = MINIMISATION" "h" "\<not> is_header_line line"
       "split (upper line) = x # toks" "not_updated d x = Inr True"
    using that assms(2,3) not_updated_True [OF that(5)]
    by (simp add: process_line_def header_record_def)
  have records: "process_line proto (h, d) line = Return d'"
    if "proto \<noteq> MINIMISATION \<or> (\<not> h \<and> \<not> is_header_line line)"
       "findall (upper line) = pre @ (key, v) # post" "records_loop d pre = Next d'"
       "strip key = ''NSTEP''" "not_updated d' v = Inr True"
  proof -
    have "records_loop d (findall (upper line)) = Return d'"
      using that(2-5) by (simp add: records_loop_append)
    then have "records_block h d line = Return d'"
      by (simp add: records_block_def)
    with that(1) assms(2,3) show ?thesis
      by (auto simp: process_line_def)
  qed
  from stop header records process_line_Return show ?thesis by blast
qed


theorem no_new_frame_stops_silently_witness:
  "update_energy_dict MINIMISATION
       [''   NSTEP       ENERGY          RMS'', ''      1      -1.5     2.0'',
        ''   NSTEP       ENERGY          RMS'', ''      2      -2.5     1.0'']
       [(''NSTEP'', [''1'']), (''ENERGY'', [''-1.5''])]
     = (None, [(''NSTEP'', [''1'']), (''ENERGY'', [''-1.5''])]) \<and>
   update_energy_dict PRODUCTION
       [''NSTEP = 100   TIME(PS) = 0.200  ETOT = -1234.5'',
        ''NSTEP = 200   TIME(PS) = 0.400  ETOT = -1230.0'']
       [(''NSTEP'', [''100'']), (''TIME(PS)'', [''0.200'']), (''ETOT'', [''-1234.5''])]
     = (None, [(''NSTEP'', [''100'']), (''TIME(PS)'', [''0.200'']), (''ETOT'', [''-1234.5''])])"
proof -
  let ?hdr = "''   NSTEP       ENERGY          RMS''"
  let ?row = "''      1      -1.5     2.0''"
  let ?dmin = "[(''NSTEP'', [''1'']), (''ENERGY'', [''-1.5''])]"
  have m1: "lines_loop MINIMISATION (False, ?dmin) [?hdr] = Next (True, ?dmin)"
    by code_simp
  have m2: "?row \<noteq> []" by simp
  have m3: "hd ?row \<noteq> CHR ''|''" by simp
  have m4: "\<not> is_header_line ?row" by code_simp
  have m5: "split (upper ?row) = ''1'' # [''-1.5'', ''2.0'']" by code_simp
  have m6: "not_updated ?dmin ''1'' = Inr True" by code_simp
  have minimisation: "update_energy_dict MINIMISATION
       ([?hdr] @ ?row # [?hdr, ''      2      -2.5     1.0'']) ?dmin = (None, ?dmin)"
    using no_new_frame_stops_silently [where x = "''1''" and toks = "[''-1.5'', ''2.0'']"
              and after = "[?hdr, ''      2      -2.5     1.0'']", OF m1 m2 m3, THEN conjunct1]
          m4 m5 m6
    by blast
  let ?line = "''NSTEP = 100   TIME(PS) = 0.200  ETOT = -1234.5''"
  let ?ddyn = "[(''NSTEP'', [''100'']), (''TIME(PS)'', [''0.200'']), (''ETOT'', [''-1234.5''])]"
  have d1: "lines_loop PRODUCTION (False, ?ddyn) [] = Next (False, ?ddyn)" by simp
  have d2: "?line \<noteq> []" by simp
  have d3: "hd ?line \<noteq> CHR ''|''" by simp
  have d4: "findall (upper ?line) =
      [] @ (''NSTEP'', ''100'') # [(''   TIME(PS)'', ''0.200''), (''  ETOT'', ''-1234.5'')]"
    by code_simp
  have d5: "records_loop ?ddyn [] = Next ?ddyn" by simp
  have d6: "strip ''NSTEP'' = ''NSTEP''" by code_simp
  have d7: "not_updated ?ddyn ''100'' = Inr True" by code_simp
  have d8: "PRODUCTION \<noteq> MINIMISATION" by simp
  have dynamics: "update_energy_dict PRODUCTION
       ([] @ ?line # [''NSTEP = 200   TIME(PS) = 0.400  ETOT = -1230.0'']) ?ddyn = (None, ?ddyn)"
    using no_new_frame_stops_silently [where pre = "[]" and key = "''NSTEP''" and v = "''100''"
              and post = "[(''   TIME(PS)'', ''0.200''), (''  ETOT'', ''-1234.5'')]"
              and d' = ?ddyn
              and after = "[''NSTEP = 200   TIME(PS) = 0.400  ETOT = -1230.0'']",
            OF d1 d2 d3, THEN conjunct2, THEN conjunct1]
          d4 d5 d6 d7 d8
    by blast
  from minimisation dynamics show ?thesis by simp
qed

section \<open>The queries and the watcher\<close>

lemma get_stdout_record_absent:
  "get_stdout_record float [] key ts = Inr PyNone"
  "map_of d (chars key) = None \<Longrightarrow> get_stdout_record float d key ts = Inr PyNone"
  by (simp_all add: get_stdout_record_def getitem_def Let_def)

lemma get_stdout_record_runtime_key:
  "get_stdout_record float d (StrObj (Runtime n) k) ts \<noteq> Inr (PyInt i)"
  by (auto simp: get_stdout_record_def getitem_def Let_def py_is_def literal_def
        convert_all_def convert_last_def split: option.splits flag.splits)

text \<open>
  C6: \<open>getRecord\<close> never returns an integer. Its key is the string built by
  \<open>record.strip().upper()\<close>, a new object, so the identity test \<open>key is 'NSTEP'\<close> fails
  and the step count is converted with \<open>float\<close> like every other record: for the log
  line \<open>NSTEP = 100 ...\<close> the latest value of \<open>'NSTEP'\<close> is \<open>float('100')\<close>. \<open>getStep\<close>,
  which passes the literal \<open>'NSTEP'\<close>, returns the integer \<open>100\<close> on the same input.
  An empty dictionary or an unseen key does give \<open>None\<close>: see \<open>get_stdout_record_absent\<close>.
\<close>

theorem getRecord_step_count_is_float:
  "fst (getRecord float self nrg n record ts) \<noteq> Inr (PyInt i) \<and>
   fst (getRecord float \<lparr>protocol_type = PRODUCTION, stdout_dict = [], is_watching = True,
                          process = Some True\<rparr>
          [''NSTEP = 100   TIME(PS) = 0.200  ETOT = -1234.5''] n (literal ''NSTEP'') (PyBool False))
     = (case float ''100'' of None \<Rightarrow> Inl ValueError | Some x \<Rightarrow> Inr (PyFloat x)) \<and>
   fst (getStep float \<lparr>protocol_type = PRODUCTION, stdout_dict = [], is_watching = True,
                        process = Some True\<rparr>
          [''NSTEP = 100   TIME(PS) = 0.200  ETOT = -1234.5''] (PyBool False))
     = Inr (PyInt 100)"
proof -
  let ?line = "''NSTEP = 100   TIME(PS) = 0.200  ETOT = -1234.5''"
  let ?d = "[(''NSTEP'', [''100'']), (''TIME(PS)'', [''0.200'']), (''ETOT'', [''-1234.5''])]"
  have general: "fst (getRecord float self nrg n record ts) \<noteq> Inr (PyInt i)"
    by (auto simp: getRecord_def get_stdout_record_runtime_key split: prod.splits option.splits)
  have upd: "update_energy_dict PRODUCTION [?line] [] = (None, ?d)"
    by code_simp
  have key: "upper (strip ''NSTEP'') = ''NSTEP''"
    by code_simp
  have int100: "py_int ''100'' = Some 100"
    by code_simp
  have rec: "fst (getRecord float \<lparr>protocol_type = PRODUCTION, stdout_dict = [], is_watching = True,
                          process = Some True\<rparr> [?line] n (literal ''NSTEP'') (PyBool False))
     = (case float ''100'' of None \<Rightarrow> Inl ValueError | Some x \<Rightarrow> Inr (PyFloat x))"
    by (simp add: getRecord_def Amber_update_energy_dict_def upd literal_def key
          get_stdout_record_def getitem_def py_is_def convert_last_def)
  have step: "fst (getStep float \<lparr>protocol_type = PRODUCTION, stdout_dict = [], is_watching = True,
                        process = Some True\<rparr> [?line] (PyBool False))
     = Inr (PyInt 100)"
    by (simp add: getStep_def Amber_update_energy_dict_def upd literal_def
          get_stdout_record_def getitem_def py_is_def convert_last_def int100)
  from general rec step show ?thesis by blast
qed

theorem getRecord_step_count_is_float_witness:
  "fst (getRecord (\<lambda>s. Some s) \<lparr>protocol_type = PRODUCTION, stdout_dict = [], is_watching = True,
                          process = Some True\<rparr>
          [''NSTEP = 100   TIME(PS) = 0.200  ETOT = -1234.5''] 0 (literal ''NSTEP'') (PyBool False))
     = Inr (PyFloat ''100'')"
  using getRecord_step_count_is_float [of "\<lambda>s. Some s" _ _ 0, THEN conjunct2, THEN conjunct1]
  by simp

lemma dispatch_events_other:
  assumes "\<forall>(ev, f) \<in> set pre. ev \<noteq> modified"
  shows "dispatch_events s (pre @ rest) = dispatch_events s rest"
  using assms by (induction pre) (auto simp: on_any_event_def)

text \<open>
  C8: when \<open>start\<close> launches a process (none is running), it leaves the watching flag
  unset. Events other than modifications change nothing. The first modification event
  sets the flag and parses the energy file into an empty dictionary, so the records of an
  earlier run are gone before any new record is stored. A modification event in the
  watching state parses the file into the dictionary as it is, without clearing it, and
  the flag stays set. Called while a process is running, \<open>start\<close> returns at once and
  changes nothing.
\<close>

theorem watcher_state_machine:
  assumes "process self = None \<or> process self = Some False"
    and "\<forall>(ev, f) \<in> set pre. ev \<noteq> modified"
    and "u = update_energy_dict (protocol_type self) nrg []"
    and "u' = update_energy_dict (protocol_type s) nrg' (stdout_dict s)"
  shows "is_watching (start self alive) = False \<and>
         dispatch_events (start self alive) pre = (None, start self alive) \<and>
         dispatch_events (start self alive) (pre @ [(modified, nrg)]) =
           (fst u, (start self alive)\<lparr>stdout_dict := snd u, is_watching := True\<rparr>) \<and>
         (is_watching s \<longrightarrow>
            on_any_event s modified nrg' = (fst u', s\<lparr>stdout_dict := snd u'\<rparr>) \<and>
            is_watching (snd (on_any_event s modified nrg'))) \<and>
         (process s = Some True \<longrightarrow> start s alive = s)"
proof -
  let ?s0 = "start self alive"
  have s0: "?s0 = self\<lparr>is_watching := False, process := Some alive\<rparr>"
    using assms(1) by (auto simp: start_def)
  then have flag: "is_watching ?s0 = False" by simp
  have quiet: "dispatch_events ?s0 pre = (None, ?s0)"
    using dispatch_events_other [OF assms(2), of ?s0 "[]"] by simp
  have "on_any_event ?s0 modified nrg = (fst u, ?s0\<lparr>stdout_dict := snd u, is_watching := True\<rparr>)"
    unfolding s0 assms(3)
    by (simp add: on_any_event_def Amber_update_energy_dict_def split: prod.splits)
  then have enter: "dispatch_events ?s0 (pre @ [(modified, nrg)]) =
      (fst u, ?s0\<lparr>stdout_dict := snd u, is_watching := True\<rparr>)"
    by (cases "fst u") (simp_all add: dispatch_events_other [OF assms(2)])
  have stay: "on_any_event s modified nrg' = (fst u', s\<lparr>stdout_dict := snd u'\<rparr>) \<and>
      is_watching (snd (on_any_event s modified nrg'))" if "is_watching s"
    using that unfolding assms(4)
    by (simp add: on_any_event_def Amber_update_energy_dict_def split: prod.splits)
  have guard: "start s alive = s" if "process s = Some True"
    using that by (simp add: start_def)
  from flag quiet enter stay guard show ?thesis by blast
qed


theorem watcher_state_machine_witness:
  "dispatch_events
       (start \<lparr>protocol_type = PRODUCTION, stdout_dict = [(''NSTEP'', [''900''])],
               is_watching = True, process = Some False\<rparr> True)
       [(created, []), (modified, [''NSTEP = 100   TIME(PS) = 0.200  ETOT = -1234.5''])]
     = (None, \<lparr>protocol_type = PRODUCTION,
               stdout_dict = [(''NSTEP'', [''100'']), (''TIME(PS)'', [''0.200'']),
                              (''ETOT'', [''-1234.5''])],
               is_watching = True, process = Some True\<rparr>) \<and>
   on_any_event
       \<lparr>protocol_type = PRODUCTION,
        stdout_dict = [(''NSTEP'', [''100'']), (''TIME(PS)'', [''0.200'']), (''ETOT'', [''-1234.5''])],
        is_watching = True, process = Some True\<rparr>
       modified [''NSTEP = 200   TIME(PS) = 0.400  ETOT = -1230.0'']
     = (None, \<lparr>protocol_type = PRODUCTION,
               stdout_dict = [(''NSTEP'', [''100'', ''200'']), (''TIME(PS)'', [''0.200'', ''0.400'']),
                              (''ETOT'', [''-1234.5'', ''-1230.0''])],
               is_watching = True, process = Some True\<rparr>)"
proof -
  let ?self = "\<lparr>protocol_type = PRODUCTION, stdout_dict = [(''NSTEP'', [''900''])],
                is_watching = True, process = Some False\<rparr>"
  let ?d1 = "[(''NSTEP'', [''100'']), (''TIME(PS)'', [''0.200'']), (''ETOT'', [''-1234.5''])]"
  let ?d2 = "[(''NSTEP'', [''100'', ''200'']), (''TIME(PS)'', [''0.200'', ''0.400'']),
              (''ETOT'', [''-1234.5'', ''-1230.0''])]"
  let ?s = "\<lparr>protocol_type = PRODUCTION, stdout_dict = ?d1, is_watching = True,
             process = Some True\<rparr>"
  have a1: "process ?self = None \<or> process ?self = Some False" by simp
  have a2: "\<forall>(ev, f) \<in> set [(created, [] :: string list)]. ev \<noteq> modified" by simp
  have "update_energy_dict PRODUCTION [''NSTEP = 100   TIME(PS) = 0.200  ETOT = -1234.5''] []
          = (None, ?d1)"
    by code_simp
  then have a3: "(None, ?d1) = update_energy_dict (protocol_type ?self)
          [''NSTEP = 100   TIME(PS) = 0.200  ETOT = -1234.5''] []"
    by simp
  have "update_energy_dict PRODUCTION [''NSTEP = 200   TIME(PS) = 0.400  ETOT = -1230.0''] ?d1
          = (None, ?d2)"
    by code_simp
  then have a4: "(None, ?d2) = update_energy_dict (protocol_type ?s)
          [''NSTEP = 200   TIME(PS) = 0.400  ETOT = -1230.0''] (stdout_dict ?s)"
    by simp
  have s0: "start ?self True = \<lparr>protocol_type = PRODUCTION, stdout_dict = [(''NSTEP'', [''900''])],
                is_watching = False, process = Some True\<rparr>"
    by (simp add: start_def)
  note machine = watcher_state_machine [OF a1 a2 a3 a4, of True]
  have enter: "dispatch_events (start ?self True)
       [(created, []), (modified, [''NSTEP = 100   TIME(PS) = 0.200  ETOT = -1234.5''])]
     = (None, ?s)"
    using machine [THEN conjunct2, THEN conjunct2, THEN conjunct1] by (simp add: s0)
  have stay: "on_any_event ?s modified [''NSTEP = 200   TIME(PS) = 0.400  ETOT = -1230.0'']
     = (None, \<lparr>protocol_type = PRODUCTION, stdout_dict = ?d2, is_watching = True,
               process = Some True\<rparr>)"
    using machine [THEN conjunct2, THEN conjunct2, THEN conjunct2, THEN conjunct1] by simp
  from enter stay show ?thesis by (rule conjI)
qed

end
